theory Spec2Isabelle
  imports Main
begin

section \<open>Data model of node.h\<close>

text \<open>
  The state of a node (\<^verbatim>\<open>enum state\<close>). A node's state lives in a monitor
  (\<^verbatim>\<open>lwsync::monitor<state> d_state_m\<close>) that the node's own thread, the callers of
  \<^verbatim>\<open>start\<close>/\<^verbatim>\<open>pause\<close>/\<^verbatim>\<open>stop\<close> and the node's input pins all access.
\<close>

datatype state =
    start_requested
  | started
  | incoming
  | pause_requested
  | paused
  | stop_requested

text \<open>\<^verbatim>\<open>enum pin::dir { in, out }\<close>.\<close>

datatype dir = dir_in | dir_out

text \<open>
  Modelled from the spec: the packet (\<^verbatim>\<open>packet.h\<close> is not among the sources). A payload and an
  optional consumption time.
\<close>

record packet =
  payload :: nat
  consumption_time :: "nat option"

text \<open>
  Modelled from the spec: the pipe (\<^verbatim>\<open>pipe.h\<close> is not among the sources). A named FIFO queue with
  a length cap and a weight cap (0 meaning unlimited) and a reference to the pin at each end.
  The two references are named after the accessors \<^verbatim>\<open>node.h\<close> calls: \<^verbatim>\<open>outpin::push\<close> assigns
  \<^verbatim>\<open>output()\<close> to an \<^verbatim>\<open>inpin*\<close>, so \<open>d_output_p\<close> is the consuming node's input pin;
  \<^verbatim>\<open>pin::connect\<close> constructs the pipe from (name, \<^verbatim>\<open>outpin*\<close>, \<^verbatim>\<open>inpin*\<close>, max_length,
  max_weight), so \<open>d_input_p\<close>, read by \<^verbatim>\<open>input()\<close>, is the producing node's output pin
  (the comment of \<^verbatim>\<open>pin::connect\<close> agrees: "If the output pin is already connected to a
  pipe, it will be disconnected").
  Pins are referred to by their index in the store.
\<close>

record pipe =
  pipe_name :: string
  d_packets :: "packet list"
  d_input_p :: "nat option"
  d_output_p :: "nat option"
  d_max_length :: nat
  d_max_weight :: nat

definition new_pipe :: "string \<Rightarrow> nat option \<Rightarrow> nat option \<Rightarrow> nat \<Rightarrow> nat \<Rightarrow> pipe" where
  "new_pipe name_r output_p input_p max_length max_weight =
     \<lparr>pipe_name = name_r, d_packets = [], d_input_p = output_p, d_output_p = input_p,
      d_max_length = max_length, d_max_weight = max_weight\<rparr>"

definition pipe_input :: "pipe \<Rightarrow> nat option" where
  "pipe_input p = d_input_p p"

definition pipe_output :: "pipe \<Rightarrow> nat option" where
  "pipe_output p = d_output_p p"

definition pipe_length :: "pipe \<Rightarrow> nat" where
  "pipe_length p = length (d_packets p)"

definition pipe_weight :: "(packet \<Rightarrow> nat) \<Rightarrow> pipe \<Rightarrow> nat" where
  "pipe_weight wt p = sum_list (map wt (d_packets p))"

text \<open>
  Modelled from the spec: \<^verbatim>\<open>pipe::push\<close> appends the packet if both capacity constraints hold
  after the insertion; otherwise it rejects and leaves the packet with its caller. The result is
  the acceptance flag, the pipe afterwards, and the packet left with the caller, if any. The
  weight measure \<open>wt\<close> of a packet is a parameter.
\<close>

definition pipe_push :: "(packet \<Rightarrow> nat) \<Rightarrow> pipe \<Rightarrow> packet \<Rightarrow> bool \<times> pipe \<times> packet option" where
  "pipe_push wt p packet_p =
     (if (d_max_length p = 0 \<or> pipe_length p + 1 \<le> d_max_length p) \<and>
         (d_max_weight p = 0 \<or> pipe_weight wt p + wt packet_p \<le> d_max_weight p)
      then (True, p\<lparr>d_packets := d_packets p @ [packet_p]\<rparr>, None)
      else (False, p, Some packet_p))"

text \<open>
  Modelled from the spec: \<^verbatim>\<open>pipe::pop\<close> removes and returns the front packet if there is one.
\<close>

definition pipe_pop :: "pipe \<Rightarrow> packet option \<times> pipe" where
  "pipe_pop p =
     (case d_packets p of
        [] \<Rightarrow> (None, p)
      | x # xs \<Rightarrow> (Some x, p\<lparr>d_packets := xs\<rparr>))"

text \<open>
  Modelled from the spec: \<^verbatim>\<open>named::rename\<close> on a pipe, and the two cap setters. Each setter
  stores its argument in the cap it is named after.
\<close>

definition pipe_rename :: "string \<Rightarrow> pipe \<Rightarrow> pipe" where
  "pipe_rename n p = p\<lparr>pipe_name := n\<rparr>"

definition cap_length :: "nat \<Rightarrow> pipe \<Rightarrow> pipe" where
  "cap_length n p = p\<lparr>d_max_length := n\<rparr>"

definition cap_weight :: "nat \<Rightarrow> pipe \<Rightarrow> pipe" where
  "cap_weight n p = p\<lparr>d_max_weight := n\<rparr>"

text \<open>
  A pin (\<^verbatim>\<open>class pin\<close> with its subclasses \<^verbatim>\<open>inpin\<close> and \<^verbatim>\<open>outpin\<close>): its name, the value
  of the virtual \<^verbatim>\<open>direction()\<close>, the shared pointer to its pipe (\<open>None\<close> is the empty
  pointer, \<open>Some a\<close> the pipe at address \<open>a\<close>) and, used by input pins only, the index of the
  owning node's state monitor.
\<close>

record pin =
  pin_name :: string
  direction :: dir
  d_pipe_cr_sp :: "nat option"
  d_state_m_r :: nat

text \<open>
  The store: the pins, the pipes made by \<^verbatim>\<open>std::make_shared\<close> (every address below
  \<open>next_pipe\<close> has been handed out, and none is handed out twice), the use count of each
  pipe's \<^verbatim>\<open>std::shared_ptr\<close> control block, and the state monitors of the nodes. A pipe is
  destroyed when its use count falls to 0: from then on no pin refers to it.
\<close>

record store =
  pins :: "nat \<Rightarrow> pin"
  pipes :: "nat \<Rightarrow> pipe"
  next_pipe :: nat
  use_count :: "nat \<Rightarrow> nat"
  monitors :: "nat \<Rightarrow> state"

text \<open>
  Assigning to the shared pointer of pin \<open>i\<close> (\<open>None\<close>: \<^verbatim>\<open>reset()\<close>): the pipe newly
  referred to gains a reference, then the pipe referred to before loses one.
\<close>

definition set_pipe_ref :: "nat \<Rightarrow> nat option \<Rightarrow> store \<Rightarrow> store" where
  "set_pipe_ref i r st =
     (let old = d_pipe_cr_sp (pins st i);
          st1 = (case r of
                   None \<Rightarrow> st
                 | Some a \<Rightarrow> st\<lparr>use_count := (use_count st)(a := use_count st a + 1)\<rparr>);
          st2 = (case old of
                   None \<Rightarrow> st1
                 | Some b \<Rightarrow> st1\<lparr>use_count := (use_count st1)(b := use_count st1 b - 1)\<rparr>)
      in st2\<lparr>pins := (pins st2)(i := (pins st2 i)\<lparr>d_pipe_cr_sp := r\<rparr>)\<rparr>)"

definition set_pipe :: "nat \<Rightarrow> pipe \<Rightarrow> store \<Rightarrow> store" where
  "set_pipe a p st = st\<lparr>pipes := (pipes st)(a := p)\<rparr>"

section \<open>Input and output pins\<close>

text \<open>\<^verbatim>\<open>inpin::peek\<close>: false without a pipe, otherwise whether the pipe holds a packet.\<close>

definition inpin_peek :: "store \<Rightarrow> nat \<Rightarrow> bool" where
  "inpin_peek st this =
     (case d_pipe_cr_sp (pins st this) of
        None \<Rightarrow> False
      | Some a \<Rightarrow> pipe_length (pipes st a) \<noteq> 0)"

text \<open>\<^verbatim>\<open>inpin::pop\<close>: \<^verbatim>\<open>nullptr\<close> without a pipe or with an empty one, else the front packet.\<close>

definition inpin_pop :: "store \<Rightarrow> nat \<Rightarrow> packet option \<times> store" where
  "inpin_pop st this =
     (case d_pipe_cr_sp (pins st this) of
        None \<Rightarrow> (None, st)
      | Some a \<Rightarrow>
          (if pipe_length (pipes st a) \<noteq> 0
           then (case pipe_pop (pipes st a) of (x, p') \<Rightarrow> (x, set_pipe a p' st))
           else (None, st)))"

text \<open>\<^verbatim>\<open>inpin::incoming\<close>: a node that is \<open>started\<close> becomes \<open>incoming\<close>.\<close>

definition inpin_incoming :: "store \<Rightarrow> nat \<Rightarrow> store" where
  "inpin_incoming st this =
     (let n = d_state_m_r (pins st this)
      in if monitors st n = started
         then st\<lparr>monitors := (monitors st)(n := incoming)\<rparr>
         else st)"

text \<open>
  What a call of \<^verbatim>\<open>outpin::push\<close> does besides changing the store, in order: taking and
  releasing the lock of the pipe at an address (the scope of the accessor \<^verbatim>\<open>pipe_cr_a\<close>), the
  call of \<^verbatim>\<open>pipe::push\<close> with its result, and the call of \<^verbatim>\<open>incoming()\<close> on an input pin.
\<close>

datatype event =
    Acquire nat
  | PipePush nat bool
  | Release nat
  | Incoming nat

text \<open>
  The outcome of \<^verbatim>\<open>outpin::push\<close>: the boolean it returns, the store afterwards, the events in
  order, and the packet that the parameter \<^verbatim>\<open>packet_p\<close> still owns when the function returns.
  The parameter is a \<^verbatim>\<open>std::unique_ptr<packet>\<close> passed by value: the caller's pointer is moved
  from at the call, and what the parameter owns at the return is destroyed with it.
\<close>

record push_result =
  returned :: bool
  after :: store
  trace :: "event list"
  destroyed :: "packet option"

definition outpin_push :: "(packet \<Rightarrow> nat) \<Rightarrow> store \<Rightarrow> nat \<Rightarrow> packet \<Rightarrow> push_result" where
  "outpin_push wt st this packet_p =
     (case d_pipe_cr_sp (pins st this) of
        None \<Rightarrow> \<lparr>returned = False, after = st, trace = [], destroyed = Some packet_p\<rparr>
      | Some a \<Rightarrow>
          (case pipe_push wt (pipes st a) packet_p of
             (ok, p', left) \<Rightarrow>
               (let inpin_p = (if ok then pipe_output p' else None);
                    st1 = set_pipe a p' st
                in \<lparr>returned = (inpin_p = None),
                    after = (case inpin_p of None \<Rightarrow> st1 | Some i \<Rightarrow> inpin_incoming st1 i),
                    trace = [Acquire a, PipePush a ok, Release a] @
                            (case inpin_p of None \<Rightarrow> [] | Some i \<Rightarrow> [Incoming i]),
                    destroyed = left\<rparr>)))"

text \<open>
  \<^verbatim>\<open>pin::disconnect\<close> resets the shared pointer of this pin: the pipe loses a reference,
  the peer's pointer is left alone.
\<close>

definition pin_disconnect :: "nat \<Rightarrow> store \<Rightarrow> store" where
  "pin_disconnect this st = set_pipe_ref this None st"

text \<open>
  What \<^verbatim>\<open>pin::connect\<close> can end in instead of a store: a failed \<^verbatim>\<open>assert\<close>, or undefined
  behaviour.
\<close>

datatype error = AssertionFailed | UndefinedBehaviour

text \<open>
  Whether disconnecting pin \<open>i\<close> drops the last reference to the pipe at \<open>a\<close>: the pin refers
  to that pipe and nothing else does.
\<close>

definition drops_last_ref :: "store \<Rightarrow> nat \<Rightarrow> nat \<Rightarrow> bool" where
  "drops_last_ref st a i = (d_pipe_cr_sp (pins st i) = Some a \<and> use_count st a \<le> 1)"

text \<open>
  The first block of \<^verbatim>\<open>pin::connect\<close>: when \<^verbatim>\<open>other\<close> has a pipe and that pipe's
  \<^verbatim>\<open>input()\<close> is not null, the pin \<^verbatim>\<open>input()\<close> points to is disconnected. The block
  holds the accessor \<^verbatim>\<open>other_pipe_a\<close> of that pipe all along. When the disconnected pin held
  the last reference to the very pipe, the pipe and its lock are destroyed under the accessor,
  which then unlocks freed memory: undefined behaviour.
\<close>

definition disconnect_input :: "store \<Rightarrow> nat \<Rightarrow> error + store" where
  "disconnect_input st other =
     (case d_pipe_cr_sp (pins st other) of
        None \<Rightarrow> Inr st
      | Some a \<Rightarrow>
          (case pipe_input (pipes st a) of
             None \<Rightarrow> Inr st
           | Some i \<Rightarrow>
               if drops_last_ref st a i then Inl UndefinedBehaviour
               else Inr (pin_disconnect i st)))"

text \<open>
  \<^verbatim>\<open>pin::connect\<close>, called on an input pin with a pointer to an output pin. The three
  \<^verbatim>\<open>assert\<close>s and the first block are the error branches. After the first block, an input
  pin that has a pipe shares it with \<^verbatim>\<open>other\<close>, renames it and applies the non-zero caps
  (both through \<^verbatim>\<open>cap_length\<close>, as the source does); an input pin without a pipe gets a new
  one, shared with \<^verbatim>\<open>other\<close>: the new pipe is moved into this pin's pointer, its first
  reference, and copied into the pointer of \<^verbatim>\<open>other\<close>. The pointer of \<^verbatim>\<open>other\<close> is
  assigned while, at most, the accessor of this pin's pipe is held, and the assignment never
  drops the last reference to that pipe.
\<close>

definition pin_connect :: "store \<Rightarrow> nat \<Rightarrow> nat option \<Rightarrow> nat \<Rightarrow> nat \<Rightarrow> error + store" where
  "pin_connect st this other_p max_length max_weight =
     (case other_p of
        None \<Rightarrow> Inl AssertionFailed
      | Some other \<Rightarrow>
          if direction (pins st this) \<noteq> dir_in then Inl AssertionFailed
          else if direction (pins st other) \<noteq> dir_out then Inl AssertionFailed
          else
            (case disconnect_input st other of
               Inl e \<Rightarrow> Inl e
             | Inr st1 \<Rightarrow>
                 (case d_pipe_cr_sp (pins st1 this) of
                    Some a \<Rightarrow>
                      (let st2 = set_pipe_ref other (Some a) st1;
                           st3 = set_pipe a (pipe_rename (pin_name (pins st2 other) @ ''_to_'' @
                                   pin_name (pins st2 this)) (pipes st2 a)) st2;
                           st4 = (if max_length \<noteq> 0
                                  then set_pipe a (cap_length max_length (pipes st3 a)) st3 else st3);
                           st5 = (if max_weight \<noteq> 0
                                  then set_pipe a (cap_length max_weight (pipes st4 a)) st4 else st4)
                       in Inr st5)
                  | None \<Rightarrow>
                      (let p = new_pipe (pin_name (pins st1 other) @ ''_to_'' @
                                 pin_name (pins st1 this)) (Some other) (Some this) max_length max_weight;
                           a = next_pipe st1;
                           st2 = set_pipe a p
                                   (st1\<lparr>next_pipe := a + 1, use_count := (use_count st1)(a := 0)\<rparr>);
                           st3 = set_pipe_ref this (Some a) st2
                       in Inr (set_pipe_ref other (Some a) st3)))))"

text \<open>\<^verbatim>\<open>inpin::connect\<close> takes the output pin by reference.\<close>

definition inpin_connect :: "store \<Rightarrow> nat \<Rightarrow> nat \<Rightarrow> nat \<Rightarrow> nat \<Rightarrow> error + store" where
  "inpin_connect st this outpin_r max_length max_weight =
     pin_connect st this (Some outpin_r) max_length max_weight"

text \<open>\<^verbatim>\<open>outpin::connect\<close> delegates to the input pin.\<close>

definition outpin_connect :: "store \<Rightarrow> nat \<Rightarrow> nat \<Rightarrow> nat \<Rightarrow> nat \<Rightarrow> error + store" where
  "outpin_connect st this inpin_r max_length max_weight =
     inpin_connect st inpin_r this max_length max_weight"

text \<open>The constructors of the two kinds of pin: no pipe yet.\<close>

definition outpin_ctor :: "string \<Rightarrow> pin" where
  "outpin_ctor name_r = \<lparr>pin_name = name_r, direction = dir_out, d_pipe_cr_sp = None, d_state_m_r = 0\<rparr>"

definition inpin_ctor :: "string \<Rightarrow> nat \<Rightarrow> pin" where
  "inpin_ctor name_r state_m_r =
     \<lparr>pin_name = name_r, direction = dir_in, d_pipe_cr_sp = None, d_state_m_r = state_m_r\<rparr>"

section \<open>Nodes and their execution loops\<close>

text \<open>
  \<^verbatim>\<open>node::start\<close>, \<^verbatim>\<open>node::pause\<close> and \<^verbatim>\<open>node::stop\<close> write the requested state into the
  node's monitor.
\<close>

definition set_state :: "nat \<Rightarrow> state \<Rightarrow> store \<Rightarrow> store" where
  "set_state n v st = st\<lparr>monitors := (monitors st)(n := v)\<rparr>"

definition node_start :: "nat \<Rightarrow> store \<Rightarrow> store" where
  "node_start n st = set_state n start_requested st"

definition node_pause :: "nat \<Rightarrow> store \<Rightarrow> store" where
  "node_pause n st = set_state n pause_requested st"

definition node_stop :: "nat \<Rightarrow> store \<Rightarrow> store" where
  "node_stop n st = set_state n stop_requested st"

text \<open>
  \<^verbatim>\<open>monitor::wait_for\<close> blocks until the predicate holds of the monitor's value and then gives
  access to it: \<open>None\<close> says that the caller stays blocked on the value \<open>m\<close>.
\<close>

definition wait_for :: "(state \<Rightarrow> bool) \<Rightarrow> state \<Rightarrow> state option" where
  "wait_for pred m = (if pred m then Some m else None)"

text \<open>
  The worker thread of a node runs \<^verbatim>\<open>operator()\<close>. Between two accesses to the monitor other
  threads run, so the loop is cut into steps with at most one access each, and a thread is at one
  of these points: before the first assignment, at the test of the \<^verbatim>\<open>while\<close>, before the
  first \<^verbatim>\<open>if\<close> chain of the body (which waits for or reads the state), before the second one
  (which settles a request), before the last \<^verbatim>\<open>if\<close> of the body (which calls back), at the
  test of the consumer's \<^verbatim>\<open>for\<close> loop with the value of \<^verbatim>\<open>i\<close>, or past the
  \<^verbatim>\<open>while\<close>.
\<close>

datatype point = Entry | While | Observe | Settle | Act | Scan nat | Returned

text \<open>The callbacks into the concrete node, as the thread makes them.\<close>

datatype call = Produce | Ready nat

text \<open>
  What belongs to the thread alone: where it is, its local variable \<^verbatim>\<open>s\<close>, and the callbacks
  it has made so far.
\<close>

record thread =
  at :: point
  s :: state
  log :: "call list"

text \<open>
  One step of \<^verbatim>\<open>producer::operator()\<close> for the node with monitor \<open>n\<close>; \<open>produce\<close> is the
  concrete node's \<^verbatim>\<open>produce()\<close>. \<open>None\<close>: the thread is blocked in \<^verbatim>\<open>wait_for\<close>, or it
  has returned.
\<close>

definition producer_step ::
  "(store \<Rightarrow> store) \<Rightarrow> nat \<Rightarrow> store \<times> thread \<Rightarrow> (store \<times> thread) option" where
  "producer_step produce n c =
     (case c of (st, th) \<Rightarrow>
        (case at th of
           Entry \<Rightarrow> Some (set_state n started st, th\<lparr>at := While, s := started\<rparr>)
         | While \<Rightarrow>
             (if s th \<noteq> stop_requested then Some (st, th\<lparr>at := Observe\<rparr>)
              else Some (st, th\<lparr>at := Returned\<rparr>))
         | Observe \<Rightarrow>
             (if s th = paused
              then (case wait_for (\<lambda>state_r. state_r = start_requested \<or> state_r = stop_requested)
                           (monitors st n) of
                      None \<Rightarrow> None
                    | Some v \<Rightarrow> Some (st, th\<lparr>at := Settle, s := v\<rparr>))
              else Some (st, th\<lparr>at := Settle, s := monitors st n\<rparr>))
         | Settle \<Rightarrow>
             (if s th = pause_requested
              then Some (set_state n paused st, th\<lparr>at := Act, s := paused\<rparr>)
              else if s th = start_requested
              then Some (set_state n started st, th\<lparr>at := Act, s := started\<rparr>)
              else Some (st, th\<lparr>at := Act\<rparr>))
         | Act \<Rightarrow>
             (if s th = started
              then Some (produce st, th\<lparr>at := While, log := log th @ [Produce]\<rparr>)
              else Some (st, th\<lparr>at := While\<rparr>))
         | Scan i \<Rightarrow> None
         | Returned \<Rightarrow> None))"

text \<open>
  One step of \<^verbatim>\<open>consumer::operator()\<close> for the node with monitor \<open>n\<close> and the input pins
  \<open>d_inputs\<close>; \<open>ready\<close> is the concrete node's \<^verbatim>\<open>ready(n)\<close>. At \<open>Scan i\<close> the thread tests
  \<^verbatim>\<open>i != ins()\<close>, peeks at input \<open>i\<close>, calls \<^verbatim>\<open>ready(i)\<close> if a packet is there, and
  increments \<^verbatim>\<open>i\<close>.
\<close>

definition consumer_step ::
  "(nat \<Rightarrow> store \<Rightarrow> store) \<Rightarrow> nat list \<Rightarrow> nat \<Rightarrow> store \<times> thread \<Rightarrow> (store \<times> thread) option" where
  "consumer_step ready d_inputs n c =
     (case c of (st, th) \<Rightarrow>
        (case at th of
           Entry \<Rightarrow> Some (set_state n started st, th\<lparr>at := While, s := started\<rparr>)
         | While \<Rightarrow>
             (if s th \<noteq> stop_requested then Some (st, th\<lparr>at := Observe\<rparr>)
              else Some (st, th\<lparr>at := Returned\<rparr>))
         | Observe \<Rightarrow>
             (if s th = paused
              then (case wait_for (\<lambda>state_r. state_r = start_requested \<or> state_r = stop_requested)
                           (monitors st n) of
                      None \<Rightarrow> None
                    | Some v \<Rightarrow> Some (st, th\<lparr>at := Settle, s := v\<rparr>))
              else if s th = started
              then (case wait_for (\<lambda>state_r. state_r \<noteq> started) (monitors st n) of
                      None \<Rightarrow> None
                    | Some v \<Rightarrow> Some (st, th\<lparr>at := Settle, s := v\<rparr>))
              else Some (st, th\<lparr>at := Settle, s := monitors st n\<rparr>))
         | Settle \<Rightarrow>
             (if s th = pause_requested
              then Some (set_state n paused st, th\<lparr>at := Act, s := paused\<rparr>)
              else if s th = start_requested
              then Some (set_state n started st, th\<lparr>at := Act, s := started\<rparr>)
              else if s th = incoming
              then Some (set_state n started st, th\<lparr>at := Act\<rparr>)
              else Some (st, th\<lparr>at := Act\<rparr>))
         | Act \<Rightarrow>
             (if s th = incoming then Some (st, th\<lparr>at := Scan 0\<rparr>)
              else Some (st, th\<lparr>at := While\<rparr>))
         | Scan i \<Rightarrow>
             (if i \<noteq> length d_inputs
              then (if inpin_peek st (d_inputs ! i)
                    then Some (ready i st, th\<lparr>at := Scan (i + 1), log := log th @ [Ready i]\<rparr>)
                    else Some (st, th\<lparr>at := Scan (i + 1)\<rparr>))
              else Some (st, th\<lparr>at := While\<rparr>))
         | Returned \<Rightarrow> None))"

text \<open>
  A run of a thread among the others: before each of its steps the other threads change the
  store as the next function of the list says (\<open>id\<close> when nothing happens). \<open>None\<close>: the thread
  could not take one of the steps.
\<close>

fun run ::
  "(store \<times> thread \<Rightarrow> (store \<times> thread) option) \<Rightarrow> (store \<Rightarrow> store) list \<Rightarrow> store \<times> thread \<Rightarrow>
   (store \<times> thread) option" where
  "run step [] c = Some c"
| "run step (e # es) c =
     (case step (e (fst c), snd c) of
        None \<Rightarrow> None
      | Some c' \<Rightarrow> run step es c')"

section \<open>A small graph\<close>

text \<open>
  A producer \<open>p\<close> with the output pin \<open>p_out0\<close> (pin 0), a consumer \<open>c\<close> with the input pins
  \<open>c_in0\<close> and \<open>c_in1\<close> (pins 1 and 2), whose state monitor is monitor 0 and holds \<open>started\<close>,
  and a second producer \<open>q\<close> with the output pin \<open>q_out0\<close> (pin 3). Nothing is connected.
\<close>

definition graph0 :: store where
  "graph0 =
     \<lparr>pins = (\<lambda>_. outpin_ctor [])
        (0 := outpin_ctor ''p_out0'', 1 := inpin_ctor ''c_in0'' 0, 2 := inpin_ctor ''c_in1'' 0,
         3 := outpin_ctor ''q_out0''),
      pipes = (\<lambda>_. new_pipe [] None None 0 0),
      next_pipe = 0,
      use_count = (\<lambda>_. 0),
      monitors = (\<lambda>_. started)\<rparr>"

text \<open>The same graph with \<open>p_out0\<close> connected to \<open>c_in0\<close> by a pipe of at most one packet.\<close>

definition graph1 :: store where
  "graph1 =
     set_pipe_ref 0 (Some 0) (set_pipe_ref 1 (Some 0)
       (set_pipe 0 (new_pipe ''p_out0_to_c_in0'' (Some 0) (Some 1) 1 0) (graph0\<lparr>next_pipe := 1\<rparr>)))"

text \<open>A packet, and the default weight of the spec: one packet is one unit.\<close>

definition pkt :: "nat \<Rightarrow> packet" where
  "pkt n = \<lparr>payload = n, consumption_time = None\<rparr>"

definition unit_weight :: "packet \<Rightarrow> nat" where
  "unit_weight p = 1"

text \<open>The graph \<open>graph1\<close> after one packet has been pushed: its pipe is full.\<close>

definition graph1_full :: store where
  "graph1_full = after (outpin_push unit_weight graph1 0 (pkt 1))"

text \<open>
  The graph \<open>graph1\<close> after \<open>c_in0\<close> has been disconnected: \<open>p_out0\<close> alone holds pipe 0.
\<close>

definition graph1_alone :: store where
  "graph1_alone = pin_disconnect 1 graph1"

text \<open>
  The graph with \<open>p_out0\<close> connected to \<open>c_in0\<close> and \<open>q_out0\<close> to \<open>c_in1\<close> by unbounded pipes,
  one packet waiting in each.
\<close>

definition graph2 :: store where
  "graph2 =
     set_pipe 0 ((new_pipe ''p_out0_to_c_in0'' (Some 0) (Some 1) 0 0)\<lparr>d_packets := [pkt 1]\<rparr>)
       (set_pipe 1 ((new_pipe ''q_out0_to_c_in1'' (Some 3) (Some 2) 0 0)\<lparr>d_packets := [pkt 2]\<rparr>)
         (set_pipe_ref 0 (Some 0) (set_pipe_ref 1 (Some 0)
           (set_pipe_ref 3 (Some 1) (set_pipe_ref 2 (Some 1) (graph0\<lparr>next_pipe := 2\<rparr>))))))"

text \<open>
  The \<^verbatim>\<open>ready\<close> of the test node \<^verbatim>\<open>consumption_counter\<close> (tests/counted.h): whatever the
  index, it pops input 0. (The counter it increments is private to the node.)
\<close>

definition counter_ready :: "nat list \<Rightarrow> nat \<Rightarrow> store \<Rightarrow> store" where
  "counter_ready d_inputs i st = snd (inpin_pop st (d_inputs ! 0))"

section \<open>Vocabulary of the properties\<close>

text \<open>The number of \<^verbatim>\<open>incoming()\<close> calls on input pin \<open>i\<close> in a sequence of events.\<close>

definition notifications :: "nat \<Rightarrow> event list \<Rightarrow> nat" where
  "notifications i tr = length (filter (\<lambda>e. e = Incoming i) tr)"

text \<open>
  Whether every \<^verbatim>\<open>incoming()\<close> call in a sequence of events happens while no pipe lock is
  held; the first argument lists the locks held at the start.
\<close>

fun notified_unlocked :: "nat list \<Rightarrow> event list \<Rightarrow> bool" where
  "notified_unlocked held [] = True"
| "notified_unlocked held (Acquire a # es) = notified_unlocked (a # held) es"
| "notified_unlocked held (Release a # es) = notified_unlocked (removeAll a held) es"
| "notified_unlocked held (PipePush a ok # es) = notified_unlocked held es"
| "notified_unlocked held (Incoming i # es) = (held = [] \<and> notified_unlocked held es)"

text \<open>
  A pin that is not the only holder of a pipe: it holds no pipe, or it holds a pipe made earlier
  that has a second holder.
\<close>

definition not_sole_owner :: "store \<Rightarrow> nat \<Rightarrow> bool" where
  "not_sole_owner st i =
     (case d_pipe_cr_sp (pins st i) of
        None \<Rightarrow> True
      | Some a \<Rightarrow> a < next_pipe st \<and> 2 \<le> use_count st a)"

text \<open>
  A pin holds at most one pipe reference by its type; the pipe it holds, if any, names it at the
  matching end: an output pin as \<^verbatim>\<open>input()\<close>, an input pin as \<^verbatim>\<open>output()\<close>.
\<close>

definition pin_inv :: "store \<Rightarrow> nat \<Rightarrow> bool" where
  "pin_inv st i =
     (case d_pipe_cr_sp (pins st i) of
        None \<Rightarrow> True
      | Some a \<Rightarrow>
          (if direction (pins st i) = dir_out then pipe_input (pipes st a) = Some i
           else pipe_output (pipes st a) = Some i))"

text \<open>The state a loop settles an observed state to.\<close>

definition settled :: "state \<Rightarrow> state" where
  "settled m =
     (if m = pause_requested then paused else if m = start_requested then started else m)"

text \<open>
  The scan of a consumer among other threads: \<open>es ! k\<close> is what the others do to the store just
  before input \<open>k\<close> is examined. \<open>scanned \<dots> k\<close> is the store once the inputs below \<open>k\<close> have
  been examined, and \<open>examined \<dots> i\<close> the store in which input \<open>i\<close> is peeked at.
\<close>

fun scanned ::
  "(nat \<Rightarrow> store \<Rightarrow> store) \<Rightarrow> nat list \<Rightarrow> (store \<Rightarrow> store) list \<Rightarrow> store \<Rightarrow> nat \<Rightarrow> store" where
  "scanned ready d_inputs es st 0 = st"
| "scanned ready d_inputs es st (Suc k) =
     (let stk = (es ! k) (scanned ready d_inputs es st k)
      in if inpin_peek stk (d_inputs ! k) then ready k stk else stk)"

definition examined ::
  "(nat \<Rightarrow> store \<Rightarrow> store) \<Rightarrow> nat list \<Rightarrow> (store \<Rightarrow> store) list \<Rightarrow> store \<Rightarrow> nat \<Rightarrow> store" where
  "examined ready d_inputs es st i = (es ! i) (scanned ready d_inputs es st i)"

text \<open>What is looked at of a thread after a run: where it is, its \<^verbatim>\<open>s\<close>, its callbacks.\<close>

definition outcome :: "(store \<times> thread) option \<Rightarrow> (point \<times> state \<times> call list) option" where
  "outcome r = map_option (\<lambda>c. (at (snd c), s (snd c), log (snd c))) r"

section \<open>Helper lemmas\<close>

lemmas graph_defs = graph0_def graph1_def graph2_def graph1_full_def graph1_alone_def
  outpin_ctor_def inpin_ctor_def set_pipe_def set_pipe_ref_def new_pipe_def pkt_def
  unit_weight_def Let_def

lemmas pipe_defs = pipe_push_def pipe_length_def pipe_weight_def pipe_output_def pipe_input_def
  pipe_pop_def pipe_rename_def cap_length_def cap_weight_def

lemmas connect_defs = outpin_connect_def inpin_connect_def pin_connect_def disconnect_input_def
  drops_last_ref_def pin_disconnect_def

lemmas push_defs = outpin_push_def inpin_incoming_def

lemmas loop_defs = producer_step_def consumer_step_def wait_for_def set_state_def node_start_def
  node_pause_def node_stop_def outcome_def

text \<open>The example graphs are what the operations of the model build.\<close>

lemma graph1_connect: "outpin_connect graph0 0 1 1 0 = Inr graph1"
  by (auto simp add: connect_defs graph_defs fun_eq_iff)

lemma graph2_reached:
  "(case outpin_connect graph0 0 1 0 0 of
      Inl e \<Rightarrow> None
    | Inr st1 \<Rightarrow>
        (case outpin_connect st1 3 2 0 0 of
           Inl e \<Rightarrow> None
         | Inr st2 \<Rightarrow>
             Some (set_state 0 started (after (outpin_push unit_weight
                     (after (outpin_push unit_weight st2 0 (pkt 1))) 3 (pkt 2)))))) = Some graph2"
  by (auto simp add: connect_defs push_defs set_state_def Let_def graph_defs pipe_defs fun_eq_iff)

text \<open>\<^verbatim>\<open>pipe::push\<close> leaves the ends of the pipe alone.\<close>

lemma pipe_push_output: "pipe_output (fst (snd (pipe_push wt p x))) = pipe_output p"
  by (simp add: pipe_push_def pipe_output_def)

text \<open>
  What \<^verbatim>\<open>outpin::push\<close> returns on a connected pin: true exactly when no input pin was
  notified, that is when the pipe rejected the packet or has no input pin at its output end.
\<close>

lemma outpin_push_returned:
  assumes "d_pipe_cr_sp (pins st this) = Some a"
  shows "returned (outpin_push wt st this x) =
           (\<not> fst (pipe_push wt (pipes st a) x) \<or> pipe_output (pipes st a) = None)"
proof (cases "pipe_push wt (pipes st a) x")
  case (fields ok p' left)
  have "pipe_output p' = pipe_output (pipes st a)"
    using pipe_push_output [of wt "pipes st a" x] fields by simp
  then show ?thesis
    using assms fields by (simp add: outpin_push_def Let_def)
qed

text \<open>A run over two lists of interferences is the run over the first, then over the second.\<close>

lemma run_append:
  "run step (xs @ ys) c = (case run step xs c of None \<Rightarrow> None | Some c' \<Rightarrow> run step ys c')"
  by (induction xs arbitrary: c) (auto split: option.splits)

text \<open>
  The first \<open>k\<close> steps of a consumer's scan: the thread has examined the inputs below \<open>k\<close> in
  order and called \<^verbatim>\<open>ready\<close> for those that had a packet when they were examined.
\<close>

lemma scan_prefix:
  assumes "at th = Scan 0"
  shows "k \<le> length d_inputs \<Longrightarrow> k \<le> length es \<Longrightarrow>
         run (consumer_step ready d_inputs n) (take k es) (st, th) =
           Some (scanned ready d_inputs es st k,
                 th\<lparr>at := Scan k,
                    log := log th @ map Ready (filter
                      (\<lambda>i. inpin_peek (examined ready d_inputs es st i) (d_inputs ! i)) [0..<k])\<rparr>)"
proof (induction k)
  case 0
  then show ?case using assms by simp
next
  case (Suc k)
  have t: "take (Suc k) es = take k es @ [es ! k]"
    using Suc.prems by (simp add: take_Suc_conv_app_nth)
  show ?case
    using Suc by (simp add: t run_append consumer_step_def examined_def Let_def)
qed

text \<open>A producer's thread is past its loop only with \<open>stop_requested\<close> in \<^verbatim>\<open>s\<close>.\<close>

lemma producer_step_returned:
  assumes "producer_step produce n c = Some c'"
    and "at (snd c) = Returned \<longrightarrow> s (snd c) = stop_requested"
  shows "at (snd c') = Returned \<longrightarrow> s (snd c') = stop_requested"
  using assms
  by (cases c; cases "at (snd c)")
    (auto simp add: producer_step_def wait_for_def split: if_splits)

lemma producer_run_returned:
  "run (producer_step produce n) es c = Some c' \<Longrightarrow>
   (at (snd c) = Returned \<longrightarrow> s (snd c) = stop_requested) \<Longrightarrow>
   (at (snd c') = Returned \<longrightarrow> s (snd c') = stop_requested)"
proof (induction es arbitrary: c)
  case Nil
  then show ?case by simp
next
  case (Cons e es)
  from Cons.prems(1) obtain c1 where
    c1: "producer_step produce n (e (fst c), snd c) = Some c1"
    and r: "run (producer_step produce n) es c1 = Some c'"
    by (auto split: option.splits)
  have "at (snd c1) = Returned \<longrightarrow> s (snd c1) = stop_requested"
    using producer_step_returned [OF c1] Cons.prems(2) by simp
  then show ?case using Cons.IH [OF r] by blast
qed

text \<open>
  The first block of \<^verbatim>\<open>pin::connect\<close>, when it goes through, changes nothing but one pipe
  reference and the use count of the pipe it referred to.
\<close>

lemma disconnect_input_frame:
  assumes "disconnect_input st other = Inr d"
  shows "pipes d = pipes st"
    and "next_pipe d = next_pipe st"
    and "monitors d = monitors st"
    and "direction (pins d i) = direction (pins st i)"
    and "pin_name (pins d i) = pin_name (pins st i)"
  using assms
  by (auto simp add: disconnect_input_def pin_disconnect_def set_pipe_ref_def Let_def
      split: option.splits if_splits)

lemma disconnect_input_ref:
  assumes "disconnect_input st other = Inr d"
  shows "d_pipe_cr_sp (pins d i) = None \<or> d_pipe_cr_sp (pins d i) = d_pipe_cr_sp (pins st i)"
  using assms
  by (auto simp add: disconnect_input_def pin_disconnect_def set_pipe_ref_def Let_def
      split: option.splits if_splits)

text \<open>The first block goes through for an output pin that is not the only holder of a pipe.\<close>

lemma disconnect_input_shared:
  assumes "not_sole_owner st other"
  shows "\<exists>d. disconnect_input st other = Inr d"
  using assms
  by (auto simp add: disconnect_input_def not_sole_owner_def drops_last_ref_def
      split: option.splits)

lemma disconnect_input_self:
  assumes "d_pipe_cr_sp (pins st other) = Some a"
    and "pipe_input (pipes st a) = Some other"
    and "2 \<le> use_count st a"
  shows "disconnect_input st other = Inr (pin_disconnect other st)"
  using assms by (simp add: disconnect_input_def drops_last_ref_def)

text \<open>\<^verbatim>\<open>pin::connect\<close> on an input pin that has no pipe after the first block.\<close>

lemma pin_connect_new:
  assumes "direction (pins st this) = dir_in"
    and "direction (pins st other) = dir_out"
    and "disconnect_input st other = Inr d"
    and "d_pipe_cr_sp (pins d this) = None"
  shows "pin_connect st this (Some other) l w =
           Inr (set_pipe_ref other (Some (next_pipe st))
                 (set_pipe_ref this (Some (next_pipe st))
                   (set_pipe (next_pipe st)
                      (new_pipe (pin_name (pins st other) @ ''_to_'' @ pin_name (pins st this))
                         (Some other) (Some this) l w)
                      (d\<lparr>next_pipe := next_pipe st + 1,
                         use_count := (use_count d)(next_pipe st := 0)\<rparr>))))"
  using assms disconnect_input_frame [OF assms(3)]
  by (simp add: pin_connect_def Let_def)

text \<open>
  The store after \<^verbatim>\<open>pin::connect\<close> has made a new pipe at address \<open>a\<close> for the input pin
  \<open>this\<close>, which held none, and the output pin \<open>other\<close>, which held none or an earlier pipe.
\<close>

lemma new_pipe_store:
  assumes "this \<noteq> other"
    and "d_pipe_cr_sp (pins d this) = None"
    and "d_pipe_cr_sp (pins d other) = None \<or>
         (\<exists>b. d_pipe_cr_sp (pins d other) = Some b \<and> b \<noteq> a)"
    and "st' = set_pipe_ref other (Some a) (set_pipe_ref this (Some a)
               (set_pipe a p (d\<lparr>next_pipe := a + 1, use_count := (use_count d)(a := 0)\<rparr>)))"
  shows "d_pipe_cr_sp (pins st' other) = Some a"
    and "d_pipe_cr_sp (pins st' this) = Some a"
    and "i \<noteq> this \<Longrightarrow> i \<noteq> other \<Longrightarrow> pins st' i = pins d i"
    and "direction (pins st' i) = direction (pins d i)"
    and "pin_name (pins st' i) = pin_name (pins d i)"
    and "next_pipe st' = a + 1"
    and "pipes st' a = p"
    and "b \<noteq> a \<Longrightarrow> pipes st' b = pipes d b"
    and "use_count st' a = 2"
  using assms
  by (auto simp add: set_pipe_ref_def set_pipe_def Let_def split: option.splits)

section \<open>The return value of \<^verbatim>\<open>outpin::push\<close>\<close>

text \<open>
  C1. The claim: on an output pin with a pipe, \<^verbatim>\<open>push\<close> returns true if the pipe accepted the
  packet and false if it rejected it. The code returns the opposite. In \<open>graph1\<close> the pipe of
  \<open>p_out0\<close> is empty and takes one packet: it accepts packet 1, which is queued, and \<^verbatim>\<open>push\<close>
  returns false; the pipe is then full, it rejects packet 2, and \<^verbatim>\<open>push\<close> returns true.
\<close>

theorem push_returns_false_when_accepted:
  "fst (pipe_push unit_weight (pipes graph1 0) (pkt 1)) = True \<and>
   returned (outpin_push unit_weight graph1 0 (pkt 1)) = False \<and>
   d_packets (pipes (after (outpin_push unit_weight graph1 0 (pkt 1))) 0) = [pkt 1] \<and>
   fst (pipe_push unit_weight (pipes graph1_full 0) (pkt 2)) = False \<and>
   returned (outpin_push unit_weight graph1_full 0 (pkt 2)) = True"
  by (simp add: push_defs Let_def graph_defs pipe_defs)

text \<open>
  C2. The claim: a push rejected for capacity returns the rejection signal and leaves the packet
  with the caller. In \<open>graph1_full\<close> the pipe of \<open>p_out0\<close> holds as many packets as its length
  cap allows; the pipe rejects packet 2, \<^verbatim>\<open>push\<close> returns true (the value its documentation
  gives to a packet moved to the pipe), the packet is not queued, and it is destroyed with the
  by-value parameter that owns it when \<^verbatim>\<open>push\<close> returns.
\<close>

theorem push_rejected_destroys_packet:
  "pipe_length (pipes graph1_full 0) = d_max_length (pipes graph1_full 0) \<and>
   fst (pipe_push unit_weight (pipes graph1_full 0) (pkt 2)) = False \<and>
   returned (outpin_push unit_weight graph1_full 0 (pkt 2)) = True \<and>
   destroyed (outpin_push unit_weight graph1_full 0 (pkt 2)) = Some (pkt 2) \<and>
   d_packets (pipes (after (outpin_push unit_weight graph1_full 0 (pkt 2))) 0) = [pkt 1]"
  by (simp add: push_defs Let_def graph_defs pipe_defs)

section \<open>The notification of the input pin\<close>

text \<open>
  C3. When the pin has a pipe and the pipe has an input pin \<open>i\<close> at its output end,
  \<^verbatim>\<open>outpin::push\<close> calls \<^verbatim>\<open>incoming()\<close> on \<open>i\<close> exactly once if the pipe accepted the packet
  and not at all if it rejected it, it notifies no other pin, and every notification happens
  while no pipe lock is held.
\<close>

theorem outpin_push_notifies_once:
  assumes "d_pipe_cr_sp (pins st this) = Some a"
    and "pipe_output (pipes st a) = Some i"
  shows "notifications i (trace (outpin_push wt st this x)) =
           (if fst (pipe_push wt (pipes st a) x) then 1 else 0) \<and>
         (\<forall>j. j \<noteq> i \<longrightarrow> notifications j (trace (outpin_push wt st this x)) = 0) \<and>
         notified_unlocked [] (trace (outpin_push wt st this x))"
proof (cases "pipe_push wt (pipes st a) x")
  case (fields ok p' left)
  have out: "pipe_output p' = Some i"
    using pipe_push_output [of wt "pipes st a" x] fields assms(2) by simp
  show ?thesis
    using assms(1) fields out
    by (cases ok) (simp_all add: outpin_push_def notifications_def Let_def)
qed

theorem outpin_push_notifies_once_witness:
  "notifications 1 (trace (outpin_push unit_weight graph1 0 (pkt 1))) = 1 \<and>
   notifications 1 (trace (outpin_push unit_weight graph1_full 0 (pkt 2))) = 0 \<and>
   notifications 2 (trace (outpin_push unit_weight graph1 0 (pkt 1))) = 0 \<and>
   notified_unlocked [] (trace (outpin_push unit_weight graph1 0 (pkt 1))) \<and>
   trace (outpin_push unit_weight graph1 0 (pkt 1)) =
     [Acquire 0, PipePush 0 True, Release 0, Incoming 1] \<and>
   monitors (after (outpin_push unit_weight graph1 0 (pkt 1))) 0 = incoming"
proof -
  have a: "d_pipe_cr_sp (pins graph1 0) = Some 0"
    by (simp add: graph_defs)
  have b: "pipe_output (pipes graph1 0) = Some 1"
    by (simp add: graph_defs pipe_defs)
  have a': "d_pipe_cr_sp (pins graph1_full 0) = Some 0"
    by (simp add: push_defs Let_def graph_defs pipe_defs)
  have b': "pipe_output (pipes graph1_full 0) = Some 1"
    by (simp add: push_defs Let_def graph_defs pipe_defs)
  have c: "fst (pipe_push unit_weight (pipes graph1 0) (pkt 1))"
    by (simp add: graph_defs pipe_defs)
  have c': "\<not> fst (pipe_push unit_weight (pipes graph1_full 0) (pkt 2))"
    by (simp add: push_defs Let_def graph_defs pipe_defs)
  have d: "trace (outpin_push unit_weight graph1 0 (pkt 1)) =
     [Acquire 0, PipePush 0 True, Release 0, Incoming 1]"
    by (simp add: push_defs Let_def graph_defs pipe_defs)
  have e: "monitors (after (outpin_push unit_weight graph1 0 (pkt 1))) 0 = incoming"
    by (simp add: push_defs Let_def graph_defs pipe_defs)
  show ?thesis
    using outpin_push_notifies_once [OF a b, of unit_weight "pkt 1"]
      outpin_push_notifies_once [OF a' b', of unit_weight "pkt 2"] c c' d e
    by simp
qed

section \<open>Pins without a pipe\<close>

text \<open>
  C9. On a pin that holds no pipe reference, \<^verbatim>\<open>peek\<close> returns false, \<^verbatim>\<open>pop\<close> returns
  nothing and \<^verbatim>\<open>push\<close> returns false, the value documented for a packet that was not moved to
  the pipe; none of them changes the store, notifies a pin or has an error branch.
\<close>

theorem unconnected_pin_neutral:
  assumes "d_pipe_cr_sp (pins st this) = None"
  shows "inpin_peek st this = False \<and>
         inpin_pop st this = (None, st) \<and>
         returned (outpin_push wt st this x) = False \<and>
         after (outpin_push wt st this x) = st \<and>
         trace (outpin_push wt st this x) = []"
  using assms by (simp add: inpin_peek_def inpin_pop_def outpin_push_def)

theorem unconnected_pin_neutral_witness:
  "d_pipe_cr_sp (pins graph0 0) = None \<and> d_pipe_cr_sp (pins graph0 1) = None \<and>
   inpin_peek graph0 1 = False \<and> inpin_pop graph0 1 = (None, graph0) \<and>
   returned (outpin_push unit_weight graph0 0 (pkt 1)) = False \<and>
   after (outpin_push unit_weight graph0 0 (pkt 1)) = graph0"
proof -
  have a: "d_pipe_cr_sp (pins graph0 0) = None"
    by (simp add: graph_defs)
  have b: "d_pipe_cr_sp (pins graph0 1) = None"
    by (simp add: graph_defs)
  show ?thesis
    using a b unconnected_pin_neutral [OF a, of unit_weight "pkt 1"]
      unconnected_pin_neutral [OF b, of unit_weight "pkt 1"]
    by simp
qed

text \<open>
  C10. \<^verbatim>\<open>push\<close> on a pin without a pipe returns false, leaves the store as it was and destroys
  the packet with its by-value parameter; \<^verbatim>\<open>push\<close> on a pin whose pipe accepts the packet and
  has an input pin at its output end queues the packet, notifies that pin once, and returns
  false as well. The return value does not tell the two apart.
\<close>

theorem push_false_is_ambiguous:
  assumes "d_pipe_cr_sp (pins st u) = None"
    and "d_pipe_cr_sp (pins st' c) = Some a"
    and "fst (pipe_push wt (pipes st' a) y)"
    and "pipe_output (pipes st' a) = Some i"
  shows "returned (outpin_push wt st u x) = False \<and>
         destroyed (outpin_push wt st u x) = Some x \<and>
         after (outpin_push wt st u x) = st \<and>
         returned (outpin_push wt st' c y) = False \<and>
         notifications i (trace (outpin_push wt st' c y)) = 1 \<and>
         destroyed (outpin_push wt st' c y) = None \<and>
         d_packets (pipes (after (outpin_push wt st' c y)) a) = d_packets (pipes st' a) @ [y]"
proof (cases "pipe_push wt (pipes st' a) y")
  case (fields ok p' left)
  have ok: "ok"
    using assms(3) fields by simp
  have out: "pipe_output p' = Some i"
    using pipe_push_output [of wt "pipes st' a" y] fields assms(4) by simp
  have left: "left = None"
    and p': "p' = (pipes st' a)\<lparr>d_packets := d_packets (pipes st' a) @ [y]\<rparr>"
    using fields ok by (auto simp: pipe_push_def split: if_splits)
  show ?thesis
    using assms(1,2) fields ok out left p'
    by (simp add: outpin_push_def notifications_def Let_def inpin_incoming_def set_pipe_def)
qed

theorem push_false_is_ambiguous_witness:
  "returned (outpin_push unit_weight graph0 0 (pkt 1)) = False \<and>
   destroyed (outpin_push unit_weight graph0 0 (pkt 1)) = Some (pkt 1) \<and>
   returned (outpin_push unit_weight graph1 0 (pkt 1)) = False \<and>
   notifications 1 (trace (outpin_push unit_weight graph1 0 (pkt 1))) = 1 \<and>
   d_packets (pipes (after (outpin_push unit_weight graph1 0 (pkt 1))) 0) = [pkt 1]"
proof -
  have a: "d_pipe_cr_sp (pins graph0 0) = None"
    by (simp add: graph_defs)
  have b: "d_pipe_cr_sp (pins graph1 0) = Some 0"
    by (simp add: graph_defs)
  have c: "fst (pipe_push unit_weight (pipes graph1 0) (pkt 1))"
    by (simp add: graph_defs pipe_defs)
  have d: "pipe_output (pipes graph1 0) = Some 1"
    by (simp add: graph_defs pipe_defs)
  have e: "d_packets (pipes graph1 0) = []"
    by (simp add: graph_defs)
  show ?thesis
    using push_false_is_ambiguous [OF a b c d, of "pkt 1"] e by simp
qed

section \<open>Connecting pins\<close>

text \<open>
  An output pin that alone holds its pipe cannot be connected again: in \<open>graph1_alone\<close> the
  first block of \<^verbatim>\<open>pin::connect\<close> disconnects \<open>p_out0\<close> from pipe 0 while it holds the
  accessor of pipe 0, and \<open>p_out0\<close> held the last reference.
\<close>

lemma connect_sole_owner_undefined:
  "use_count graph1 0 = 2 \<and> use_count graph1_alone 0 = 1 \<and>
   d_pipe_cr_sp (pins graph1_alone 0) = Some 0 \<and> d_pipe_cr_sp (pins graph1_alone 1) = None \<and>
   outpin_connect graph1_alone 0 2 0 0 = Inl UndefinedBehaviour"
  by (simp add: connect_defs graph_defs pipe_defs)

text \<open>
  C4, as the claim states it: the second \<^verbatim>\<open>connect\<close> first disconnects \<open>X\<close>, the input pin of
  the pipe of \<open>A\<close>. It does not. With \<open>p_out0\<close> connected to \<open>c_in0\<close> by pipe 0 (\<open>graph1\<close>), the
  first block of a \<^verbatim>\<open>connect\<close> with \<open>p_out0\<close> as the output pin disconnects the pin that the
  pipe gives as its \<^verbatim>\<open>input()\<close>, which is \<open>p_out0\<close> itself: it is not the disconnection of
  \<open>c_in0\<close>, and \<open>c_in0\<close> still refers to pipe 0 after it.
\<close>

theorem connect_disconnects_peer_counterexample:
  "outpin_connect graph0 0 1 1 0 = Inr graph1 \<and>
   disconnect_input graph1 0 = Inr (pin_disconnect 0 graph1) \<and>
   disconnect_input graph1 0 \<noteq> Inr (pin_disconnect 1 graph1) \<and>
   d_pipe_cr_sp (pins (pin_disconnect 0 graph1) 1) = Some 0 \<and>
   d_pipe_cr_sp (pins (pin_disconnect 0 graph1) 0) = None"
proof -
  have "d_pipe_cr_sp (pins (pin_disconnect 0 graph1) 1) \<noteq>
        d_pipe_cr_sp (pins (pin_disconnect 1 graph1) 1)"
    by (simp add: connect_defs graph_defs pipe_defs)
  then have ne: "pin_disconnect 0 graph1 \<noteq> pin_disconnect 1 graph1"
    by auto
  have d: "disconnect_input graph1 0 = Inr (pin_disconnect 0 graph1)"
    by (simp add: disconnect_input_def drops_last_ref_def graph_defs pipe_defs)
  show ?thesis
    using ne by (simp add: graph1_connect d) (simp add: connect_defs graph_defs pipe_defs)
qed

text \<open>
  C4, amended. Let \<open>A\<close> be an output pin that is not the only holder of a pipe (it holds none,
  or it shares an earlier pipe with another holder), and \<open>X\<close> and \<open>Y\<close> two different input pins
  that hold no pipe. Connecting \<open>A\<close> to \<open>X\<close> and then \<open>A\<close> to \<open>Y\<close> succeeds both times. The
  first \<^verbatim>\<open>connect\<close> makes a pipe shared by \<open>A\<close> and \<open>X\<close>. The second first disconnects \<open>A\<close>
  itself from that pipe, then makes a second pipe shared by \<open>A\<close> and \<open>Y\<close>: \<open>A\<close> ends up
  connected to \<open>Y\<close> only, \<open>X\<close> keeps its reference to the first pipe, which is untouched and
  alive with \<open>X\<close> as its one holder, and each of the three pins is the matching end of the pipe
  it holds.
\<close>

theorem connect_steals_output:
  assumes "direction (pins st A) = dir_out"
    and "direction (pins st X) = dir_in"
    and "direction (pins st Y) = dir_in"
    and "X \<noteq> Y"
    and "d_pipe_cr_sp (pins st X) = None"
    and "d_pipe_cr_sp (pins st Y) = None"
    and "not_sole_owner st A"
  shows "\<exists>st1 st2.
           outpin_connect st A X l1 w1 = Inr st1 \<and>
           outpin_connect st1 A Y l2 w2 = Inr st2 \<and>
           d_pipe_cr_sp (pins st1 A) = Some (next_pipe st) \<and>
           d_pipe_cr_sp (pins st1 X) = Some (next_pipe st) \<and>
           disconnect_input st1 A = Inr (pin_disconnect A st1) \<and>
           d_pipe_cr_sp (pins st2 A) = Some (next_pipe st + 1) \<and>
           d_pipe_cr_sp (pins st2 Y) = Some (next_pipe st + 1) \<and>
           d_pipe_cr_sp (pins st2 X) = Some (next_pipe st) \<and>
           pipes st2 (next_pipe st) = pipes st1 (next_pipe st) \<and>
           use_count st2 (next_pipe st) = 1 \<and>
           use_count st2 (next_pipe st + 1) = 2 \<and>
           pin_inv st2 A \<and> pin_inv st2 X \<and> pin_inv st2 Y"
proof -
  have ne: "A \<noteq> X" "A \<noteq> Y" "X \<noteq> A" "Y \<noteq> A"
    using assms(1,2,3) by auto
  obtain d0 where d0: "disconnect_input st A = Inr d0"
    using disconnect_input_shared [OF assms(7)] by blast
  note f0 = disconnect_input_frame [OF d0]
  have x0: "d_pipe_cr_sp (pins d0 X) = None"
    using disconnect_input_ref [OF d0, of X] assms(5) by auto
  have y0: "d_pipe_cr_sp (pins d0 Y) = None"
    using disconnect_input_ref [OF d0, of Y] assms(6) by auto
  have a0: "d_pipe_cr_sp (pins d0 A) = None \<or>
            (\<exists>b. d_pipe_cr_sp (pins d0 A) = Some b \<and> b \<noteq> next_pipe st)"
    using disconnect_input_ref [OF d0, of A] assms(7)
    by (auto simp add: not_sole_owner_def split: option.splits)
  define st1 where "st1 = set_pipe_ref A (Some (next_pipe st))
                 (set_pipe_ref X (Some (next_pipe st))
                   (set_pipe (next_pipe st)
                      (new_pipe (pin_name (pins st A) @ ''_to_'' @ pin_name (pins st X))
                         (Some A) (Some X) l1 w1)
                      (d0\<lparr>next_pipe := next_pipe st + 1,
                          use_count := (use_count d0)(next_pipe st := 0)\<rparr>)))"
  have c1: "outpin_connect st A X l1 w1 = Inr st1"
    using pin_connect_new [OF assms(2) assms(1) d0 x0, of l1 w1]
    by (simp add: outpin_connect_def inpin_connect_def st1_def)
  note s1 = new_pipe_store [OF ne(3) x0 a0 st1_def]
  have a1: "d_pipe_cr_sp (pins st1 A) = Some (next_pipe st)"
    and x1: "d_pipe_cr_sp (pins st1 X) = Some (next_pipe st)"
    and n1: "next_pipe st1 = next_pipe st + 1"
    and p1: "pipes st1 (next_pipe st) =
       new_pipe (pin_name (pins st A) @ ''_to_'' @ pin_name (pins st X)) (Some A) (Some X) l1 w1"
    and u1: "use_count st1 (next_pipe st) = 2"
    using s1(1,2,6,7,9) by simp_all
  have y1: "d_pipe_cr_sp (pins st1 Y) = None"
    using s1(3) [of Y] assms(4) ne y0 by simp
  have dir1: "direction (pins st1 A) = dir_out" "direction (pins st1 X) = dir_in"
    "direction (pins st1 Y) = dir_in"
    using assms(1,2,3) s1(4) f0(4) by simp_all
  have d1: "disconnect_input st1 A = Inr (pin_disconnect A st1)"
    using disconnect_input_self [OF a1] p1 u1 by (simp add: pipe_input_def new_pipe_def)
  define d1' where "d1' = pin_disconnect A st1"
  have y1': "d_pipe_cr_sp (pins d1' Y) = None"
    and a1': "d_pipe_cr_sp (pins d1' A) = None"
    and x1': "d_pipe_cr_sp (pins d1' X) = Some (next_pipe st)"
    and u1': "use_count d1' (next_pipe st) = 1"
    and p1': "pipes d1' = pipes st1"
    and dir1': "direction (pins d1' A) = dir_out" "direction (pins d1' X) = dir_in"
      "direction (pins d1' Y) = dir_in"
    using y1 x1 a1 u1 ne dir1
    by (simp_all add: d1'_def pin_disconnect_def set_pipe_ref_def Let_def)
  define st2 where "st2 = set_pipe_ref A (Some (next_pipe st1))
                 (set_pipe_ref Y (Some (next_pipe st1))
                   (set_pipe (next_pipe st1)
                      (new_pipe (pin_name (pins st1 A) @ ''_to_'' @ pin_name (pins st1 Y))
                         (Some A) (Some Y) l2 w2)
                      (d1'\<lparr>next_pipe := next_pipe st1 + 1,
                           use_count := (use_count d1')(next_pipe st1 := 0)\<rparr>)))"
  have c2: "outpin_connect st1 A Y l2 w2 = Inr st2"
    using pin_connect_new [OF dir1(3) dir1(1) d1 [folded d1'_def] y1', of l2 w2]
    by (simp add: outpin_connect_def inpin_connect_def st2_def)
  have a1'': "d_pipe_cr_sp (pins d1' A) = None \<or>
            (\<exists>b. d_pipe_cr_sp (pins d1' A) = Some b \<and> b \<noteq> next_pipe st1)"
    using a1' by simp
  note s2 = new_pipe_store [OF ne(4) y1' a1'' st2_def]
  have a2: "d_pipe_cr_sp (pins st2 A) = Some (next_pipe st + 1)"
    and y2: "d_pipe_cr_sp (pins st2 Y) = Some (next_pipe st + 1)"
    and q2: "pipes st2 (next_pipe st + 1) =
       new_pipe (pin_name (pins st1 A) @ ''_to_'' @ pin_name (pins st1 Y)) (Some A) (Some Y) l2 w2"
    and u2: "use_count st2 (next_pipe st + 1) = 2"
    using s2(1,2,7,9) n1 by simp_all
  have x2: "d_pipe_cr_sp (pins st2 X) = Some (next_pipe st)"
    using s2(3) [of X] assms(4) ne x1' by simp
  have p2: "pipes st2 (next_pipe st) = pipes st1 (next_pipe st)"
    using s2(8) [of "next_pipe st"] n1 p1' by simp
  have v2: "use_count st2 (next_pipe st) = 1"
    using u1' a1' y1' n1 ne
    by (simp add: st2_def set_pipe_ref_def set_pipe_def Let_def)
  have dir2: "direction (pins st2 A) = dir_out" "direction (pins st2 X) = dir_in"
    "direction (pins st2 Y) = dir_in"
    using dir1' s2(4) by simp_all
  have inv: "pin_inv st2 A" "pin_inv st2 X" "pin_inv st2 Y"
    using a2 x2 y2 dir2 p2 p1 q2
    by (simp_all add: pin_inv_def pipe_input_def pipe_output_def new_pipe_def)
  show ?thesis
    using c1 c2 a1 x1 d1 a2 y2 x2 p2 v2 u2 inv by blast
qed

theorem connect_steals_output_witness:
  "direction (pins graph0 0) = dir_out \<and> direction (pins graph0 1) = dir_in \<and>
   direction (pins graph0 2) = dir_in \<and>
   d_pipe_cr_sp (pins graph0 1) = None \<and> d_pipe_cr_sp (pins graph0 2) = None \<and>
   not_sole_owner graph0 0 \<and>
   outpin_connect graph0 0 1 1 0 = Inr graph1 \<and>
   (case outpin_connect graph1 0 2 0 0 of
      Inl e \<Rightarrow> False
    | Inr st2 \<Rightarrow>
        d_pipe_cr_sp (pins st2 0) = Some 1 \<and> d_pipe_cr_sp (pins st2 2) = Some 1 \<and>
        d_pipe_cr_sp (pins st2 1) = Some 0 \<and> pipes st2 0 = pipes graph1 0 \<and>
        use_count st2 0 = 1 \<and> use_count st2 1 = 2 \<and>
        pin_inv st2 0 \<and> pin_inv st2 1 \<and> pin_inv st2 2)"
proof -
  have h: "direction (pins graph0 0) = dir_out" "direction (pins graph0 1) = dir_in"
    "direction (pins graph0 2) = dir_in" "(1::nat) \<noteq> 2"
    "d_pipe_cr_sp (pins graph0 1) = None" "d_pipe_cr_sp (pins graph0 2) = None"
    "not_sole_owner graph0 0" "next_pipe graph0 = 0"
    by (simp_all add: graph_defs not_sole_owner_def)
  obtain st1 st2 where c: "outpin_connect graph0 0 1 1 0 = Inr st1"
    "outpin_connect st1 0 2 0 0 = Inr st2"
    "d_pipe_cr_sp (pins st2 0) = Some (next_pipe graph0 + 1)"
    "d_pipe_cr_sp (pins st2 2) = Some (next_pipe graph0 + 1)"
    "d_pipe_cr_sp (pins st2 1) = Some (next_pipe graph0)"
    "pipes st2 (next_pipe graph0) = pipes st1 (next_pipe graph0)"
    "use_count st2 (next_pipe graph0) = 1"
    "use_count st2 (next_pipe graph0 + 1) = 2"
    "pin_inv st2 0" "pin_inv st2 1" "pin_inv st2 2"
    using connect_steals_output [OF h(1-7), of 1 0 0 0] by blast
  have e: "st1 = graph1"
    using c(1) graph1_connect by simp
  show ?thesis
    using h c(2-) graph1_connect unfolding e by simp
qed

text \<open>
  C5. The claim: \<^verbatim>\<open>connect\<close> on an input pin that has a pipe attaches the output pin to that
  pipe, renames the pipe, and makes a non-zero \<^verbatim>\<open>max_length\<close> the length cap and a non-zero
  \<^verbatim>\<open>max_weight\<close> the weight cap. The code passes \<^verbatim>\<open>max_weight\<close> to \<^verbatim>\<open>cap_length\<close>. In
  \<open>graph1\<close>, whose pipe 0 has the caps 1 and 0, connecting \<open>q_out0\<close> to \<open>c_in0\<close> with
  \<^verbatim>\<open>max_length\<close> 5 and \<^verbatim>\<open>max_weight\<close> 7 attaches \<open>q_out0\<close> to pipe 0 and renames it, and
  leaves it with the length cap 7 and the weight cap 0.
\<close>

theorem connect_reuse_caps_length_twice:
  "(case outpin_connect graph1 3 1 5 7 of
      Inl e \<Rightarrow> None
    | Inr st \<Rightarrow>
        Some (d_pipe_cr_sp (pins st 3), d_pipe_cr_sp (pins st 1), pipe_name (pipes st 0),
              d_max_length (pipes st 0), d_max_weight (pipes st 0))) =
   Some (Some 0, Some 0, ''q_out0_to_c_in0'', 7, 0)"
  by (simp add: connect_defs graph_defs pipe_defs Let_def)

section \<open>The execution loops\<close>

text \<open>
  C6. The loop of a producer, as its thread runs it among other threads (\<open>e1\<close>, \<open>e2\<close>, \<open>e3\<close>
  and \<open>es\<close> are what the others do to the store between its steps):
  on entry it writes \<open>started\<close> to the monitor and to \<^verbatim>\<open>s\<close>;
  at the test of the loop it leaves if \<^verbatim>\<open>s\<close> is \<open>stop_requested\<close> and goes on otherwise;
  with \<^verbatim>\<open>s\<close> \<open>paused\<close> it is blocked exactly as long as the monitor holds neither
  \<open>start_requested\<close> nor \<open>stop_requested\<close>;
  when it is not blocked, it takes the state \<open>m\<close> of the monitor, settles \<open>pause_requested\<close> to
  \<open>paused\<close> and \<open>start_requested\<close> to \<open>started\<close> (in the monitor and in \<^verbatim>\<open>s\<close>), and then
  calls \<^verbatim>\<open>produce()\<close> once if the settled state is \<open>started\<close> and not at all otherwise, and is
  back at the test of the loop;
  when the state it takes is \<open>stop_requested\<close> it returns after this iteration, without a call;
  a thread that has returned observed \<open>stop_requested\<close>; and a returned thread does no more.
\<close>

theorem producer_loop_behaviour:
  "(at th = Entry \<longrightarrow>
      (\<exists>st1 th1. producer_step produce n (st, th) = Some (st1, th1) \<and>
         monitors st1 n = started \<and> s th1 = started \<and> at th1 = While \<and> log th1 = log th)) \<and>
   (at th = While \<longrightarrow>
      producer_step produce n (st, th) =
        Some (st, th\<lparr>at := (if s th = stop_requested then Returned else Observe)\<rparr>)) \<and>
   (at th = Observe \<and> s th = paused \<longrightarrow>
      (producer_step produce n (st, th) = None) =
        (monitors st n \<noteq> start_requested \<and> monitors st n \<noteq> stop_requested)) \<and>
   (at th = Observe \<and>
    (s th = paused \<longrightarrow> monitors st n = start_requested \<or> monitors st n = stop_requested) \<longrightarrow>
      (\<exists>st2 th2. run (producer_step produce n) [id, e1] (st, th) = Some (st2, th2) \<and>
         at th2 = Act \<and> s th2 = settled (monitors st n) \<and> log th2 = log th \<and>
         st2 = (if monitors st n = pause_requested \<or> monitors st n = start_requested
                then set_state n (settled (monitors st n)) (e1 st) else e1 st) \<and>
         run (producer_step produce n) [e2] (st2, th2) =
           (if settled (monitors st n) = started
            then Some (produce (e2 st2), th2\<lparr>at := While, log := log th @ [Produce]\<rparr>)
            else Some (e2 st2, th2\<lparr>at := While\<rparr>)))) \<and>
   (at th = Observe \<and> monitors st n = stop_requested \<longrightarrow>
      (\<exists>st4 th4. run (producer_step produce n) [id, e1, e2, e3] (st, th) = Some (st4, th4) \<and>
         at th4 = Returned \<and> log th4 = log th)) \<and>
   (at th = Entry \<and> run (producer_step produce n) es (st, th) = Some (st', th') \<and>
    at th' = Returned \<longrightarrow> s th' = stop_requested) \<and>
   (at th = Returned \<longrightarrow> producer_step produce n (st, th) = None)"
  apply (intro conjI impI)
  subgoal by (simp add: producer_step_def set_state_def)
  subgoal by (simp add: producer_step_def)
  subgoal by (simp add: producer_step_def wait_for_def)
  subgoal by (cases "monitors st n")
      (auto simp add: producer_step_def wait_for_def settled_def set_state_def)
  subgoal by (auto simp add: producer_step_def wait_for_def settled_def set_state_def)
  subgoal using producer_run_returned [of produce n es "(st, th)" "(st', th')"] by simp
  subgoal by (simp add: producer_step_def)
  done

theorem producer_loop_behaviour_witness:
  "outcome (producer_step id 0 (graph0, \<lparr>at = Entry, s = paused, log = []\<rparr>)) =
     Some (While, started, []) \<and>
   outcome (producer_step id 0 (graph0, \<lparr>at = While, s = started, log = []\<rparr>)) =
     Some (Observe, started, []) \<and>
   producer_step id 0 (node_pause 0 graph0, \<lparr>at = Observe, s = paused, log = []\<rparr>) = None \<and>
   outcome (run (producer_step id 0) [id, id, id]
     (node_start 0 graph0, \<lparr>at = Observe, s = paused, log = []\<rparr>)) =
     Some (While, started, [Produce]) \<and>
   outcome (run (producer_step id 0) [id, id, id, id]
     (node_stop 0 graph0, \<lparr>at = Observe, s = paused, log = []\<rparr>)) =
     Some (Returned, stop_requested, []) \<and>
   outcome (run (producer_step id 0) [id, id, node_stop 0, id, id, id]
     (graph0, \<lparr>at = Entry, s = paused, log = []\<rparr>)) =
     Some (Returned, stop_requested, []) \<and>
   producer_step id 0 (graph0, \<lparr>at = Returned, s = stop_requested, log = []\<rparr>) = None"
proof -
  have r: "run (producer_step id 0) [id, id, node_stop 0, id, id, id]
     (graph0, \<lparr>at = Entry, s = paused, log = []\<rparr>) =
     Some (node_stop 0 (set_state 0 started graph0),
           \<lparr>at = Returned, s = stop_requested, log = []\<rparr>)"
    by (simp add: loop_defs)
  show ?thesis
    using producer_loop_behaviour [where th = "\<lparr>at = Entry, s = paused, log = []\<rparr>"
        and st = graph0 and n = 0 and produce = id
        and es = "[id, id, node_stop 0, id, id, id]"
        and st' = "node_stop 0 (set_state 0 started graph0)"
        and th' = "\<lparr>at = Returned, s = stop_requested, log = []\<rparr>"]
      producer_loop_behaviour [where th = "\<lparr>at = While, s = started, log = []\<rparr>"
        and st = graph0 and n = 0 and produce = id]
      producer_loop_behaviour [where th = "\<lparr>at = Observe, s = paused, log = []\<rparr>"
        and st = "node_pause 0 graph0" and n = 0 and produce = id]
      producer_loop_behaviour [where th = "\<lparr>at = Observe, s = paused, log = []\<rparr>"
        and st = "node_start 0 graph0" and n = 0 and produce = id and ?e1.0 = id and ?e2.0 = id]
      producer_loop_behaviour [where th = "\<lparr>at = Observe, s = paused, log = []\<rparr>"
        and st = "node_stop 0 graph0" and n = 0 and produce = id
        and ?e1.0 = id and ?e2.0 = id and ?e3.0 = id]
      producer_loop_behaviour [where th = "\<lparr>at = Returned, s = stop_requested, log = []\<rparr>"
        and st = graph0 and n = 0 and produce = id]
      r
    by (simp add: loop_defs settled_def)
qed

text \<open>
  C7. The loop of a consumer, among other threads. A thread that is not blocked takes the state
  \<open>m\<close> of the monitor and settles it; it then starts the scan of its input pins if \<open>m\<close> is
  \<open>incoming\<close>, and is back at the test of the loop without a callback otherwise. The scan never
  blocks: it examines every input pin once, in increasing index order, and the calls it makes
  are \<^verbatim>\<open>ready(i)\<close>, in that order, for exactly the indices \<open>i\<close> whose pin had a packet when it
  was examined.
\<close>

theorem consumer_scans_ready_pins:
  "(at th = Observe \<and>
    (s th = paused \<longrightarrow> monitors st n = start_requested \<or> monitors st n = stop_requested) \<and>
    (s th = started \<longrightarrow> monitors st n \<noteq> started) \<longrightarrow>
      (\<exists>st3 th3. run (consumer_step ready d_inputs n) [id, e1, e2] (st, th) = Some (st3, th3) \<and>
         at th3 = (if monitors st n = incoming then Scan 0 else While) \<and>
         s th3 = settled (monitors st n) \<and> log th3 = log th)) \<and>
   (at th = Scan 0 \<and> length es = length d_inputs \<longrightarrow>
      run (consumer_step ready d_inputs n) (es @ [e]) (st, th) =
        Some (e (scanned ready d_inputs es st (length d_inputs)),
              th\<lparr>at := While,
                 log := log th @ map Ready (filter
                   (\<lambda>i. inpin_peek (examined ready d_inputs es st i) (d_inputs ! i))
                   [0..<length d_inputs])\<rparr>))"
proof (intro conjI impI)
  assume "at th = Observe \<and>
    (s th = paused \<longrightarrow> monitors st n = start_requested \<or> monitors st n = stop_requested) \<and>
    (s th = started \<longrightarrow> monitors st n \<noteq> started)"
  then show "\<exists>st3 th3. run (consumer_step ready d_inputs n) [id, e1, e2] (st, th) = Some (st3, th3) \<and>
         at th3 = (if monitors st n = incoming then Scan 0 else While) \<and>
         s th3 = settled (monitors st n) \<and> log th3 = log th"
    by (cases "monitors st n")
      (auto simp add: consumer_step_def wait_for_def settled_def set_state_def)
next
  assume a: "at th = Scan 0 \<and> length es = length d_inputs"
  then have p: "run (consumer_step ready d_inputs n) es (st, th) =
      Some (scanned ready d_inputs es st (length d_inputs),
            th\<lparr>at := Scan (length d_inputs),
               log := log th @ map Ready (filter
                 (\<lambda>i. inpin_peek (examined ready d_inputs es st i) (d_inputs ! i))
                 [0..<length d_inputs])\<rparr>)"
    using scan_prefix [of th "length d_inputs" d_inputs es ready n st] by simp
  show "run (consumer_step ready d_inputs n) (es @ [e]) (st, th) =
        Some (e (scanned ready d_inputs es st (length d_inputs)),
              th\<lparr>at := While,
                 log := log th @ map Ready (filter
                   (\<lambda>i. inpin_peek (examined ready d_inputs es st i) (d_inputs ! i))
                   [0..<length d_inputs])\<rparr>)"
    by (simp add: run_append p consumer_step_def)
qed

theorem consumer_scans_ready_pins_witness:
  "outcome (run (consumer_step (counter_ready [1, 2]) [1, 2] 0) [id, id, id]
     (set_state 0 incoming graph2, \<lparr>at = Observe, s = started, log = []\<rparr>)) =
     Some (Scan 0, incoming, []) \<and>
   outcome (run (consumer_step (counter_ready [1, 2]) [1, 2] 0) ([id, id] @ [id])
     (graph2, \<lparr>at = Scan 0, s = incoming, log = []\<rparr>)) =
     Some (While, incoming, [Ready 0, Ready 1])"
proof -
  have u: "[0..<2] = [0, 1]"
    by (simp add: upt_rec)
  show ?thesis
    using consumer_scans_ready_pins [where th = "\<lparr>at = Observe, s = started, log = []\<rparr>"
        and st = "set_state 0 incoming graph2" and n = 0 and d_inputs = "[1, 2]"
        and ready = "counter_ready [1, 2]" and ?e1.0 = id and ?e2.0 = id]
      consumer_scans_ready_pins [where th = "\<lparr>at = Scan 0, s = incoming, log = []\<rparr>"
        and st = graph2 and n = 0 and d_inputs = "[1, 2]" and es = "[id, id]" and e = id
        and ready = "counter_ready [1, 2]"]
    by (simp add: loop_defs settled_def)
      (auto simp add: u examined_def numeral_2_eq_2 counter_ready_def inpin_pop_def inpin_peek_def
        graph_defs pipe_defs)
qed

text \<open>
  C8. Once \<^verbatim>\<open>stop()\<close> has written \<open>stop_requested\<close> to the monitor, the predicates of both
  waits hold. A producer's thread waiting while paused, and a consumer's thread waiting while
  paused or while started, then takes four steps with nothing else happening (\<open>id\<close>): it
  wakes with \<open>stop_requested\<close>, settles nothing, makes no callback, and leaves the loop.
\<close>

theorem stop_wakes_blocked_loop:
  "wait_for (\<lambda>state_r. state_r = start_requested \<or> state_r = stop_requested)
     (monitors (node_stop n st) n) = Some stop_requested \<and>
   wait_for (\<lambda>state_r. state_r \<noteq> started) (monitors (node_stop n st) n) = Some stop_requested \<and>
   (at th = Observe \<and> s th = paused \<longrightarrow>
      run (producer_step produce n) [node_stop n, id, id, id] (st, th) =
        Some (node_stop n st, th\<lparr>at := Returned, s := stop_requested\<rparr>)) \<and>
   (at th = Observe \<and> (s th = paused \<or> s th = started) \<longrightarrow>
      run (consumer_step ready d_inputs n) [node_stop n, id, id, id] (st, th) =
        Some (node_stop n st, th\<lparr>at := Returned, s := stop_requested\<rparr>))"
  by (auto simp add: producer_step_def consumer_step_def wait_for_def node_stop_def set_state_def)

theorem stop_wakes_blocked_loop_witness:
  "producer_step id 0 (node_pause 0 graph0, \<lparr>at = Observe, s = paused, log = []\<rparr>) = None \<and>
   outcome (run (producer_step id 0) [node_stop 0, id, id, id]
     (node_pause 0 graph0, \<lparr>at = Observe, s = paused, log = []\<rparr>)) =
     Some (Returned, stop_requested, []) \<and>
   consumer_step (counter_ready [1, 2]) [1, 2] 0
     (graph2, \<lparr>at = Observe, s = started, log = []\<rparr>) = None \<and>
   outcome (run (consumer_step (counter_ready [1, 2]) [1, 2] 0) [node_stop 0, id, id, id]
     (graph2, \<lparr>at = Observe, s = started, log = []\<rparr>)) =
     Some (Returned, stop_requested, [])"
proof -
  have b: "producer_step id 0 (node_pause 0 graph0, \<lparr>at = Observe, s = paused, log = []\<rparr>) = None"
    "consumer_step (counter_ready [1, 2]) [1, 2] 0
       (graph2, \<lparr>at = Observe, s = started, log = []\<rparr>) = None"
    by (simp_all add: loop_defs graph_defs)
  show ?thesis
    using stop_wakes_blocked_loop [where th = "\<lparr>at = Observe, s = paused, log = []\<rparr>"
        and st = "node_pause 0 graph0" and n = 0 and produce = id]
      stop_wakes_blocked_loop [where th = "\<lparr>at = Observe, s = started, log = []\<rparr>"
        and st = graph2 and n = 0 and ready = "counter_ready [1, 2]" and d_inputs = "[1, 2]"]
      b
    by (simp add: outcome_def)
qed

end
